theory Spec2Isabelle
  imports Main
begin

section \<open>Values\<close>

text \<open>
  The user entry of \<^verbatim>\<open>UserEntry\<close> holds numbers, strings, booleans, nested plain
  objects and, inside its pending changes, ReQL query terms.

  A JavaScript number is a double. The fields count coins, commands and milliseconds, and
  the model holds the doubles that are integers, the two infinities and \<^verbatim>\<open>NaN\<close>: \<open>Fin n\<close>
  is the double whose value is the integer \<open>n\<close>. Sums and differences of such doubles are
  again of this kind, so the model is closed under the arithmetic of the methods. Numbers
  with a fractional part are outside the type, and the two zeros are one value.
\<close>

datatype jsnum = Fin int | PosInf | NegInf | NaN

text \<open>
  A double has 53 significant bits. \<open>excess_bits a\<close> is the number of low bits that a
  non-negative integer \<open>a\<close> has beyond them.
\<close>

function excess_bits :: "int \<Rightarrow> nat" where
  "excess_bits a = (if a < 2 ^ 53 then 0 else Suc (excess_bits (a div 2)))"
  by pat_completeness auto
termination
  by (relation "measure nat") auto

declare excess_bits.simps [simp del]

text \<open>
  The integer nearest to \<open>n\<close> that has at most 53 significant bits; of two nearest ones
  the one whose last kept bit is 0 (round to nearest, ties to even).
\<close>

definition round53 :: "int \<Rightarrow> int" where
  "round53 n =
     (let a = \<bar>n\<bar>;
          k = excess_bits a;
          q = a div 2 ^ k;
          r = a mod 2 ^ k;
          m = (if 2 * r < 2 ^ k then q
               else if 2 ^ k < 2 * r then q + 1
               else if even q then q else q + 1)
      in sgn n * (m * 2 ^ k))"

text \<open>
  The double that an exact integer result becomes: rounded, and infinite when the rounded
  magnitude reaches \<open>2 ^ 1024\<close>.
\<close>

definition to_double :: "int \<Rightarrow> jsnum" where
  "to_double n =
     (let d = round53 n
      in if 2 ^ 1024 \<le> d then PosInf else if d \<le> - (2 ^ 1024) then NegInf else Fin d)"

text \<open>\<^verbatim>\<open>a + b\<close> on numbers.\<close>

fun js_plus :: "jsnum \<Rightarrow> jsnum \<Rightarrow> jsnum" where
  "js_plus (Fin a) (Fin b) = to_double (a + b)"
| "js_plus NaN _ = NaN"
| "js_plus _ NaN = NaN"
| "js_plus PosInf NegInf = NaN"
| "js_plus NegInf PosInf = NaN"
| "js_plus PosInf _ = PosInf"
| "js_plus _ PosInf = PosInf"
| "js_plus NegInf _ = NegInf"
| "js_plus _ NegInf = NegInf"

text \<open>\<^verbatim>\<open>a - b\<close> on numbers.\<close>

fun js_minus :: "jsnum \<Rightarrow> jsnum \<Rightarrow> jsnum" where
  "js_minus (Fin a) (Fin b) = to_double (a - b)"
| "js_minus NaN _ = NaN"
| "js_minus _ NaN = NaN"
| "js_minus PosInf PosInf = NaN"
| "js_minus NegInf NegInf = NaN"
| "js_minus PosInf _ = PosInf"
| "js_minus _ NegInf = PosInf"
| "js_minus NegInf _ = NegInf"
| "js_minus _ PosInf = NegInf"

text \<open>\<^verbatim>\<open>Math.max(a, b)\<close>: \<^verbatim>\<open>NaN\<close> as soon as one argument is \<^verbatim>\<open>NaN\<close>.\<close>

fun Math_max :: "jsnum \<Rightarrow> jsnum \<Rightarrow> jsnum" where
  "Math_max (Fin a) (Fin b) = Fin (max a b)"
| "Math_max NaN _ = NaN"
| "Math_max _ NaN = NaN"
| "Math_max PosInf _ = PosInf"
| "Math_max _ PosInf = PosInf"
| "Math_max NegInf b = b"
| "Math_max a NegInf = a"

text \<open>
  The query terms the methods build with \<^verbatim>\<open>this._client.r\<close>:
  \<^verbatim>\<open>r.row(f)\<close>, \<^verbatim>\<open>t(f)\<close>, \<^verbatim>\<open>t.add(n)\<close>, \<^verbatim>\<open>t.sub(n)\<close>, \<^verbatim>\<open>r.expr([...])\<close> and \<^verbatim>\<open>t.max()\<close>.
  The source calls a term as a function (\<^verbatim>\<open>r.row('streak')('streak')\<close>), so a term is a
  function object and \<^verbatim>\<open>typeof\<close> gives \<^verbatim>\<open>'function'\<close> for it.
\<close>

datatype reql =
    R_row string
  | R_bracket reql string
  | R_add reql jsnum
  | R_sub reql jsnum
  | R_datum jsnum
  | R_expr "reql list"
  | R_max reql

text \<open>
  A plain object is the list of its own enumerable properties in the order of
  \<^verbatim>\<open>Object.keys\<close>; a JavaScript object holds each key once. Arrays do not occur in the
  user data or in the changes the methods build and are not part of the value model.

  The objects of the model are plain data: their prototype is \<^verbatim>\<open>Object.prototype\<close>, which
  gives a read of a missing key \<^verbatim>\<open>undefined\<close> or one of its methods, a function in both
  cases not an object. Two kinds of key behave otherwise in JavaScript and are outside the
  model: the key \<^verbatim>\<open>__proto__\<close>, which reads and writes the prototype, and the keys that are
  array indices, which \<^verbatim>\<open>Object.keys\<close> lists first in numeric order. The predicate \<open>wf\<close>
  below says that a value has neither.
\<close>

datatype jsval =
    VUndef
  | VNull
  | VBool bool
  | VNum jsnum
  | VStr string
  | VTerm reql
  | VObj "(string \<times> jsval) list"

type_synonym obj = "(string \<times> jsval) list"

fun typeof :: "jsval \<Rightarrow> string" where
  "typeof VUndef = ''undefined''"
| "typeof VNull = ''object''"
| "typeof (VBool _) = ''boolean''"
| "typeof (VNum _) = ''number''"
| "typeof (VStr _) = ''string''"
| "typeof (VTerm _) = ''function''"
| "typeof (VObj _) = ''object''"

text \<open>\<^verbatim>\<open>!v\<close> is \<open>\<not> truthy v\<close>.\<close>

fun truthy :: "jsval \<Rightarrow> bool" where
  "truthy VUndef = False"
| "truthy VNull = False"
| "truthy (VBool b) = b"
| "truthy (VNum (Fin n)) = (n \<noteq> 0)"
| "truthy (VNum NaN) = False"
| "truthy (VNum PosInf) = True"
| "truthy (VNum NegInf) = True"
| "truthy (VStr s) = (s \<noteq> [])"
| "truthy (VTerm _) = True"
| "truthy (VObj _) = True"

text \<open>
  \<^verbatim>\<open>o[key]\<close>: the value of the own property, \<^verbatim>\<open>undefined\<close> when the object lacks it. (For
  a key that names a method of \<^verbatim>\<open>Object.prototype\<close> the code reads that function where the
  model reads \<^verbatim>\<open>undefined\<close>; \<^verbatim>\<open>_deepMerge\<close> treats the two alike, neither being an object.)
\<close>

fun get :: "obj \<Rightarrow> string \<Rightarrow> jsval" where
  "get [] key = VUndef"
| "get ((k, v) # ps) key = (if k = key then v else get ps key)"

text \<open>
  \<^verbatim>\<open>o[key] = v\<close>: an existing property keeps its place and takes the new value, a new
  property goes to the end.
\<close>

fun put :: "string \<Rightarrow> jsval \<Rightarrow> obj \<Rightarrow> obj" where
  "put key v [] = [(key, v)]"
| "put key v ((k, w) # ps) = (if k = key then (k, v) # ps else (k, w) # put key v ps)"

text \<open>\<^verbatim>\<open>{ ...v }\<close> for a value with \<^verbatim>\<open>typeof v === 'object'\<close>: spreading \<^verbatim>\<open>null\<close> gives \<^verbatim>\<open>{}\<close>.\<close>

fun spread :: "jsval \<Rightarrow> jsval" where
  "spread (VObj ps) = VObj ps"
| "spread _ = VObj []"

datatype error = MissingArgument | TypeError | PersistenceError string

section \<open>\<^verbatim>\<open>_deepMerge\<close>\<close>

text \<open>
  The first loop of \<^verbatim>\<open>_deepMerge\<close>:
  \<^verbatim>\<open>destination[key] = typeof target[key] === 'object' ? { ...target[key] } : target[key]\<close>
  for every key of the target.
\<close>

fun copyLoop :: "obj \<Rightarrow> obj \<Rightarrow> obj" where
  "copyLoop destination [] = destination"
| "copyLoop destination ((key, tv) # rest) =
     copyLoop (put key (if typeof tv = ''object'' then spread tv else tv) destination) rest"

text \<open>
  \<open>deepMerge target source\<close> is \<^verbatim>\<open>this._deepMerge(target, source)\<close>; \<open>mergeLoop\<close> is its
  second loop, over the properties of the source that are still to be visited. In the
  last branch both \<^verbatim>\<open>target[key]\<close> and \<^verbatim>\<open>source[key]\<close> have \<^verbatim>\<open>typeof ... === 'object'\<close> and
  \<^verbatim>\<open>target[key]\<close> is truthy, hence a plain object; \<^verbatim>\<open>source[key]\<close> is a plain object or
  \<^verbatim>\<open>null\<close>, and for \<^verbatim>\<open>null\<close> the recursive call raises a \<^verbatim>\<open>TypeError\<close> at
  \<^verbatim>\<open>Object.keys(source)\<close>.

  Both loops run over the properties of an object; as an object holds each key once, the
  value that comes with the key is \<^verbatim>\<open>target[key]\<close> in the first loop and \<^verbatim>\<open>source[key]\<close> in
  the second.
\<close>

fun deepMerge :: "obj \<Rightarrow> obj \<Rightarrow> error + obj"
  and mergeLoop :: "obj \<Rightarrow> obj \<Rightarrow> obj \<Rightarrow> error + obj" where
  "deepMerge target source = mergeLoop target (copyLoop [] target) source"
| "mergeLoop target destination [] = Inr destination"
| "mergeLoop target destination ((key, sv) # rest) =
     (if \<not> truthy (get target key) \<or> typeof (get target key) \<noteq> ''object''
      then mergeLoop target (put key sv destination) rest
      else if typeof sv \<noteq> ''object''
      then mergeLoop target (put key sv destination) rest
      else (case (get target key, sv) of
              (VObj t', VObj s') \<Rightarrow>
                (case deepMerge t' s' of
                   Inl e \<Rightarrow> Inl e
                 | Inr merged \<Rightarrow> mergeLoop target (put key (VObj merged) destination) rest)
            | _ \<Rightarrow> Inl TypeError))"

section \<open>The user entry\<close>

text \<open>
  \<^verbatim>\<open>UserData\<close> as the source's typedef declares it. The field \<^verbatim>\<open>id\<close> is \<open>user_id\<close>
  here, and the nested \<^verbatim>\<open>streak.time\<close> and \<^verbatim>\<open>streak.streak\<close> are the fields of \<open>Streak\<close>.
\<close>

record Streak =
  streak_time :: jsnum
  streak_streak :: jsnum

record UserData =
  user_id :: string
  pls :: jsnum
  lastCmd :: jsnum
  lastRan :: string
  spam :: jsnum
  pocket :: jsnum
  bank :: jsnum
  won :: jsnum
  lost :: jsnum
  shared :: jsnum
  streak :: Streak
  upvoted :: bool
  dblUpvoted :: bool

text \<open>
  A \<^verbatim>\<open>UserEntry\<close> instance: the user data assigned to it, \<^verbatim>\<open>_client\<close> (the Memer
  instance, an object of the host) and \<^verbatim>\<open>_changes\<close>.
\<close>

record UserEntry = UserData +
  client :: jsval
  changes :: obj

text \<open>
  \<^verbatim>\<open>constructor (userData, Memer)\<close>: \<^verbatim>\<open>Object.assign(this, userData)\<close>, then
  \<^verbatim>\<open>this._client = Memer\<close> and \<^verbatim>\<open>this._changes = {}\<close>.
\<close>

definition new_UserEntry :: "UserData \<Rightarrow> jsval \<Rightarrow> UserEntry" where
  "new_UserEntry userData Memer =
     UserData.extend userData (UserEntry.fields Memer [])"

text \<open>
  A method call either returns \<^verbatim>\<open>this\<close> or throws; in both cases the outcome carries the
  state of the instance at that moment.
\<close>

datatype outcome = Return UserEntry | Throw error UserEntry

text \<open>\<^verbatim>\<open>update (object)\<close>: \<^verbatim>\<open>this._changes = this._deepMerge(this._changes, object)\<close>.\<close>

definition update :: "obj \<Rightarrow> UserEntry \<Rightarrow> outcome" where
  "update object this =
     (case deepMerge (changes this) object of
        Inl e \<Rightarrow> Throw e this
      | Inr merged \<Rightarrow> Return (this\<lparr>changes := merged\<rparr>))"

text \<open>
  \<^verbatim>\<open>amount = typeof amount !== 'number' ? Number(amount) : amount\<close>. The host's conversion
  \<^verbatim>\<open>Number\<close> of a value that is not a number is the parameter \<open>Number'\<close>; it gives a number
  or throws (\<open>None\<close>), as it does with a \<^verbatim>\<open>TypeError\<close> for an object that has no callable
  \<^verbatim>\<open>valueOf\<close> or \<^verbatim>\<open>toString\<close>.
\<close>

fun toNumber :: "(jsval \<Rightarrow> jsnum option) \<Rightarrow> jsval \<Rightarrow> jsnum option" where
  "toNumber Number' (VNum n) = Some n"
| "toNumber Number' amount = Number' amount"

text \<open>The two kinds of relative operation the currency methods queue.\<close>

definition row_add :: "string \<Rightarrow> jsnum \<Rightarrow> jsval" where
  "row_add field amount = VTerm (R_add (R_row field) amount)"

definition row_sub_max0 :: "string \<Rightarrow> jsnum \<Rightarrow> jsval" where
  "row_sub_max0 field amount =
     VTerm (R_max (R_expr [R_sub (R_row field) amount, R_datum (Fin 0)]))"

definition addPocket :: "(jsval \<Rightarrow> jsnum option) \<Rightarrow> jsval \<Rightarrow> UserEntry \<Rightarrow> outcome" where
  "addPocket Number' amount this =
     (if \<not> truthy amount then Throw MissingArgument this
      else
        case toNumber Number' amount of
          None \<Rightarrow> Throw TypeError this
        | Some amount \<Rightarrow>
            let this = this\<lparr>pocket := js_plus (pocket this) amount\<rparr>;
                this = this\<lparr>won := js_plus (won this) amount\<rparr>
            in update [(''pocket'', row_add ''pocket'' amount), (''won'', row_add ''won'' amount)] this)"

definition removePocket :: "(jsval \<Rightarrow> jsnum option) \<Rightarrow> jsval \<Rightarrow> UserEntry \<Rightarrow> outcome" where
  "removePocket Number' amount this =
     (if \<not> truthy amount then Throw MissingArgument this
      else
        case toNumber Number' amount of
          None \<Rightarrow> Throw TypeError this
        | Some amount \<Rightarrow>
            let this = this\<lparr>pocket := Math_max (js_minus (pocket this) amount) (Fin 0)\<rparr>;
                this = this\<lparr>lost := js_plus (lost this) amount\<rparr>
            in update [(''pocket'', row_sub_max0 ''pocket'' amount), (''lost'', row_add ''lost'' amount)] this)"

text \<open>
  \<^verbatim>\<open>addBank (amount, transfer = true)\<close>: the default stands in for an argument that is
  \<^verbatim>\<open>undefined\<close>.
\<close>

definition addBank :: "(jsval \<Rightarrow> jsnum option) \<Rightarrow> jsval \<Rightarrow> jsval \<Rightarrow> UserEntry \<Rightarrow> outcome" where
  "addBank Number' amount transfer this =
     (let transfer = (if transfer = VUndef then VBool True else transfer) in
      if \<not> truthy amount then Throw MissingArgument this
      else
        case toNumber Number' amount of
          None \<Rightarrow> Throw TypeError this
        | Some amount \<Rightarrow>
            let this = this\<lparr>bank := js_plus (bank this) amount\<rparr>;
                changes' = [(''bank'', row_add ''bank'' amount)]
            in if truthy transfer
               then update (put ''pocket'' (row_sub_max0 ''pocket'' amount) changes')
                      (this\<lparr>pocket := Math_max (js_minus (pocket this) amount) (Fin 0)\<rparr>)
               else update changes' this)"

definition removeBank :: "(jsval \<Rightarrow> jsnum option) \<Rightarrow> jsval \<Rightarrow> jsval \<Rightarrow> UserEntry \<Rightarrow> outcome" where
  "removeBank Number' amount transfer this =
     (let transfer = (if transfer = VUndef then VBool True else transfer) in
      if \<not> truthy amount then Throw MissingArgument this
      else
        case toNumber Number' amount of
          None \<Rightarrow> Throw TypeError this
        | Some amount \<Rightarrow>
            let this = this\<lparr>bank := Math_max (js_minus (bank this) amount) (Fin 0)\<rparr>;
                changes' = [(''bank'', row_sub_max0 ''bank'' amount)]
            in if truthy transfer
               then update (put ''pocket'' (row_add ''pocket'' amount) changes')
                      (this\<lparr>pocket := js_plus (pocket this) amount\<rparr>)
               else update changes' this)"

text \<open>
  \<^verbatim>\<open>updateStreak (timestamp = Date.now(), streak = this.streak.streak + 1)\<close>: an omitted
  argument is \<open>None\<close>, and \<open>now\<close> is what \<^verbatim>\<open>Date.now()\<close> reads at the call.
\<close>

definition updateStreak :: "jsnum \<Rightarrow> jsnum option \<Rightarrow> jsnum option \<Rightarrow> UserEntry \<Rightarrow> outcome" where
  "updateStreak now timestamp streak' this =
     (let timestamp = (case timestamp of None \<Rightarrow> now | Some t \<Rightarrow> t);
          streak' = (case streak' of
                       None \<Rightarrow> js_plus (streak_streak (streak this)) (Fin 1)
                     | Some s \<Rightarrow> s);
          this = this\<lparr>streak := \<lparr>streak_time = timestamp, streak_streak = streak'\<rparr>\<rparr>
      in update
           [(''streak'',
             VObj [(''time'', VNum timestamp),
                   (''streak'', VTerm (R_add (R_bracket (R_row ''streak'') ''streak'') (Fin 1)))])]
           this)"

definition resetStreak :: "UserEntry \<Rightarrow> outcome" where
  "resetStreak this =
     (let this = this\<lparr>streak := (streak this)\<lparr>streak_streak := Fin 0\<rparr>\<rparr>
      in update [(''streak'', VObj [(''streak'', VNum (Fin 0))])] this)"

definition addPls :: "jsnum option \<Rightarrow> UserEntry \<Rightarrow> outcome" where
  "addPls amount this =
     (let amount = (case amount of None \<Rightarrow> Fin 1 | Some a \<Rightarrow> a);
          this = this\<lparr>pls := js_plus (pls this) amount\<rparr>
      in update [(''pls'', row_add ''pls'' amount)] this)"

definition addSpam :: "jsnum option \<Rightarrow> UserEntry \<Rightarrow> outcome" where
  "addSpam amount this =
     (let amount = (case amount of None \<Rightarrow> Fin 1 | Some a \<Rightarrow> a);
          this = this\<lparr>spam := js_plus (spam this) amount\<rparr>
      in update [(''spam'', row_add ''spam'' amount)] this)"

definition setLastCmd :: "jsnum \<Rightarrow> string option \<Rightarrow> jsnum option \<Rightarrow> UserEntry \<Rightarrow> outcome" where
  "setLastCmd now cmd timestamp this =
     (let cmd = (case cmd of None \<Rightarrow> ''nothing'' | Some c \<Rightarrow> c);
          timestamp = (case timestamp of None \<Rightarrow> now | Some t \<Rightarrow> t);
          this = this\<lparr>lastRan := cmd\<rparr>;
          this = this\<lparr>lastCmd := timestamp\<rparr>
      in update [(''lastCmd'', VNum timestamp), (''lastRan'', VStr cmd)] this)"

text \<open>
  \<^verbatim>\<open>save ()\<close>. The insert query on the table \<^verbatim>\<open>users\<close> runs in the database; \<open>run\<close> is
  that run for the id and the changes of the entry (the default user comes from the
  client): it fails with an error, or it gives \<^verbatim>\<open>c.changes[0].new_val\<close>. The result is
  the instance after the call, which \<^verbatim>\<open>save\<close> never assigns to, and the settlement of the
  promise.
\<close>

definition save :: "(string \<Rightarrow> obj \<Rightarrow> error + UserData) \<Rightarrow> UserEntry \<Rightarrow> UserEntry \<times> (error + UserEntry)" where
  "save run this =
     (this,
      case run (user_id this) (changes this) of
        Inl e \<Rightarrow> Inl e
      | Inr new_val \<Rightarrow> Inr (new_UserEntry new_val (client this)))"

text \<open>
  \<^verbatim>\<open>toJSON ()\<close> is \<^verbatim>\<open>JSON.stringify(this)\<close>. \<^verbatim>\<open>JSON.stringify\<close> first looks for a method
  \<^verbatim>\<open>toJSON\<close> on the value it is given, and \<^verbatim>\<open>this\<close> has one, this very method, which it
  calls; the string that call returns would then be quoted (\<open>QuoteJSONString\<close>, of the
  host). A call that does not return is \<open>None\<close>.
\<close>

partial_function (option) toJSON :: "(string \<Rightarrow> string) \<Rightarrow> UserEntry \<Rightarrow> string option" where
  "toJSON QuoteJSONString this =
     Option.bind (toJSON QuoteJSONString this) (\<lambda>text. Some (QuoteJSONString text))"

text \<open>
  \<^verbatim>\<open>Object.getOwnPropertyNames(this)\<close>, each name with \<^verbatim>\<open>this[key]\<close>: the properties of
  the user data, then \<^verbatim>\<open>_client\<close> and \<^verbatim>\<open>_changes\<close>.
\<close>

definition ownProperties :: "UserEntry \<Rightarrow> obj" where
  "ownProperties this =
     [(''id'', VStr (user_id this)),
      (''pls'', VNum (pls this)),
      (''lastCmd'', VNum (lastCmd this)),
      (''lastRan'', VStr (lastRan this)),
      (''spam'', VNum (spam this)),
      (''pocket'', VNum (pocket this)),
      (''bank'', VNum (bank this)),
      (''won'', VNum (won this)),
      (''lost'', VNum (lost this)),
      (''shared'', VNum (shared this)),
      (''streak'', VObj [(''time'', VNum (streak_time (streak this))),
                         (''streak'', VNum (streak_streak (streak this)))]),
      (''upvoted'', VBool (upvoted this)),
      (''dblUpvoted'', VBool (dblUpvoted this)),
      (''_client'', client this),
      (''_changes'', VObj (changes this))]"

text \<open>The loop of \<^verbatim>\<open>toPlainObject\<close> over the own property names.\<close>

fun plainLoop :: "obj \<Rightarrow> obj \<Rightarrow> obj" where
  "plainLoop ob [] = ob"
| "plainLoop ob ((key, v) # rest) =
     plainLoop
       (if typeof v \<noteq> ''function'' \<and> key \<notin> set [''_client'', ''_changes'']
        then put key v ob else ob)
       rest"

definition toPlainObject :: "UserEntry \<Rightarrow> obj" where
  "toPlainObject this = plainLoop [] (ownProperties this)"

section \<open>Predicates and examples for the statements\<close>

text \<open>
  A key of the model: not \<^verbatim>\<open>__proto__\<close> and not a string of digits (which covers
  the array indices).
\<close>

definition ordinary_key :: "string \<Rightarrow> bool" where
  "ordinary_key key =
     (key \<noteq> ''__proto__'' \<and> \<not> (key \<noteq> [] \<and> list_all (\<lambda>c. c \<in> set ''0123456789'') key))"

text \<open>
  A value is well formed when every object in it holds each key once, as a JavaScript
  object does, and every key is one of the model.
\<close>

fun wf :: "jsval \<Rightarrow> bool" where
  "wf (VObj ps) =
     (distinct (map fst ps) \<and> (\<forall>p \<in> set ps. ordinary_key (fst p) \<and> wf (snd p)))"
| "wf _ = True"

text \<open>A value without \<^verbatim>\<open>null\<close>, at any depth.\<close>

fun null_free :: "jsval \<Rightarrow> bool" where
  "null_free VNull = False"
| "null_free (VObj ps) = (\<forall>p \<in> set ps. null_free (snd p))"
| "null_free _ = True"

text \<open>\<^verbatim>\<open>Number.isSafeInteger\<close>: an integer of magnitude at most \<open>2 ^ 53 - 1\<close>.\<close>

definition isSafeInteger :: "int \<Rightarrow> bool" where
  "isSafeInteger n = (\<bar>n\<bar> \<le> 2 ^ 53 - 1)"

text \<open>
  In the examples every amount is a number, so that \<^verbatim>\<open>Number\<close> is not called; they pass
  this stand-in for it.
\<close>

definition no_Number :: "jsval \<Rightarrow> jsnum option" where
  "no_Number v = None"

text \<open>An entry with 50 coins in the pocket, an empty bank and no pending change.\<close>

definition example_entry :: UserEntry where
  "example_entry =
     new_UserEntry
       \<lparr>user_id = ''U1'', pls = Fin 0, lastCmd = Fin 0, lastRan = ''nothing'', spam = Fin 0,
        pocket = Fin 50, bank = Fin 0, won = Fin 0, lost = Fin 0, shared = Fin 0,
        streak = \<lparr>streak_time = Fin 0, streak_streak = Fin 0\<rparr>,
        upvoted = False, dblUpvoted = False\<rparr>
       (VObj [])"

section \<open>Properties of the numbers\<close>

text \<open>An integer below \<open>2 ^ 53\<close> in magnitude is a double, and the arithmetic is exact there.\<close>

lemma excess_bits_small: "a < 2 ^ 53 \<Longrightarrow> excess_bits a = 0"
  by (subst excess_bits.simps) simp

lemma round53_small: "\<bar>n\<bar> < 2 ^ 53 \<Longrightarrow> round53 n = n"
  by (simp add: round53_def excess_bits_small Let_def mult_sgn_abs)

lemma to_double_safe: "isSafeInteger n \<Longrightarrow> to_double n = Fin n"
proof -
  assume "isSafeInteger n"
  then have lt: "\<bar>n\<bar> < 2 ^ 53" by (simp add: isSafeInteger_def)
  have "(2::int) ^ 53 \<le> 2 ^ 1024" by (rule power_increasing) simp_all
  with lt have "n < 2 ^ 1024" and "- (2 ^ 1024) < n" by linarith+
  with round53_small [OF lt] show ?thesis by (simp add: to_double_def Let_def)
qed

lemma js_plus_safe: "isSafeInteger (a + b) \<Longrightarrow> js_plus (Fin a) (Fin b) = Fin (a + b)"
  by (simp add: to_double_safe)

lemma js_minus_safe: "isSafeInteger (a - b) \<Longrightarrow> js_minus (Fin a) (Fin b) = Fin (a - b)"
  by (simp add: to_double_safe)

text \<open>Above that the sum is rounded: \<open>2 ^ 53 + 1\<close> is not a double.\<close>

lemma to_double_rounds: "to_double 9007199254740993 = Fin 9007199254740992"
  by code_simp

lemma to_double_two53: "to_double 9007199254740992 = Fin 9007199254740992"
  by code_simp

section \<open>Properties of \<^verbatim>\<open>_deepMerge\<close>\<close>

subsection \<open>Reading and writing properties\<close>

lemma get_put: "get (put k v ps) k' = (if k' = k then v else get ps k')"
  by (induction ps) auto

lemma keys_put_present: "k \<in> fst ` set ps \<Longrightarrow> map fst (put k v ps) = map fst ps"
  by (induction ps) force+

lemma keys_put_absent: "k \<notin> fst ` set ps \<Longrightarrow> map fst (put k v ps) = map fst ps @ [k]"
  by (induction ps) auto

lemma get_absent: "key \<notin> fst ` set ps \<Longrightarrow> get ps key = VUndef"
  by (induction ps) auto

lemma get_member: "distinct (map fst ps) \<Longrightarrow> (key, v) \<in> set ps \<Longrightarrow> get ps key = v"
  by (induction ps) (auto simp: image_iff)

lemma plain_object: "truthy v \<and> typeof v = ''object'' \<longleftrightarrow> (\<exists>ps. v = VObj ps)"
  by (cases v) auto

subsection \<open>What the second loop leaves at a key\<close>

lemma mergeLoop_untouched:
  "mergeLoop target destination rest = Inr merged \<Longrightarrow> key \<notin> fst ` set rest \<Longrightarrow>
   get merged key = get destination key"
proof (induction rest arbitrary: destination)
  case Nil
  then show ?case by simp
next
  case (Cons p rest)
  obtain k sv where p: "p = (k, sv)" by (cases p)
  from Cons.prems(2) p have k: "k \<noteq> key" and notin: "key \<notin> fst ` set rest" by auto
  from Cons.prems(1) p obtain d' where
    "mergeLoop target d' rest = Inr merged" and "get d' key = get destination key"
    using k by (auto simp: get_put split: if_splits jsval.splits sum.splits)
  with Cons.IH [OF _ notin] show ?case by simp
qed

lemma mergeLoop_replaces:
  "mergeLoop target destination rest = Inr merged \<Longrightarrow> distinct (map fst rest) \<Longrightarrow>
   (key, sv) \<in> set rest \<Longrightarrow>
   (\<forall>t'. get target key \<noteq> VObj t') \<or> typeof sv \<noteq> ''object'' \<Longrightarrow>
   get merged key = sv"
proof (induction rest arbitrary: destination)
  case Nil
  then show ?case by simp
next
  case (Cons p rest)
  obtain k v where p: "p = (k, v)" by (cases p)
  show ?case
  proof (cases "k = key")
    case True
    with Cons.prems(2,3) p have v: "v = sv" and notin: "key \<notin> fst ` set rest"
      by (auto simp: image_iff)
    from Cons.prems(4) have "\<not> truthy (get target key) \<or> typeof (get target key) \<noteq> ''object'' \<or> typeof sv \<noteq> ''object''"
      using plain_object [of "get target key"] by auto
    with Cons.prems(1) p True v have "mergeLoop target (put key sv destination) rest = Inr merged"
      by (auto split: if_splits)
    from mergeLoop_untouched [OF this notin] show ?thesis by (simp add: get_put)
  next
    case False
    with Cons.prems(3) p have mem: "(key, sv) \<in> set rest" by auto
    from Cons.prems(2) have dist: "distinct (map fst rest)" by simp
    from Cons.prems(1) p obtain d' where "mergeLoop target d' rest = Inr merged"
      by (auto split: if_splits jsval.splits sum.splits)
    from Cons.IH [OF this dist mem Cons.prems(4)] show ?thesis .
  qed
qed

lemma mergeLoop_recurses:
  "mergeLoop target destination rest = Inr merged \<Longrightarrow> distinct (map fst rest) \<Longrightarrow>
   (key, VObj s') \<in> set rest \<Longrightarrow> get target key = VObj t' \<Longrightarrow>
   \<exists>r. deepMerge t' s' = Inr r \<and> get merged key = VObj r"
proof (induction rest arbitrary: destination)
  case Nil
  then show ?case by simp
next
  case (Cons p rest)
  obtain k v where p: "p = (k, v)" by (cases p)
  show ?case
  proof (cases "k = key")
    case True
    with Cons.prems(2,3) p have v: "v = VObj s'" and notin: "key \<notin> fst ` set rest"
      by (auto simp: image_iff)
    from Cons.prems(1,4) p True v obtain r where r: "deepMerge t' s' = Inr r"
      and loop: "mergeLoop target (put key (VObj r) destination) rest = Inr merged"
      by (auto split: sum.splits)
    from mergeLoop_untouched [OF loop notin] r show ?thesis by (simp add: get_put)
  next
    case False
    with Cons.prems(3) p have mem: "(key, VObj s') \<in> set rest" by auto
    from Cons.prems(2) have dist: "distinct (map fst rest)" by simp
    from Cons.prems(1) p obtain d' where "mergeLoop target d' rest = Inr merged"
      by (auto split: if_splits jsval.splits sum.splits)
    from Cons.IH [OF this dist mem Cons.prems(4)] show ?thesis .
  qed
qed

subsection \<open>Merging an object with itself, and sources without \<^verbatim>\<open>null\<close>\<close>

lemma obj_eqI:
  "map fst xs = map fst ys \<Longrightarrow> distinct (map fst xs) \<Longrightarrow>
   (\<And>k. k \<in> fst ` set xs \<Longrightarrow> get xs k = get ys k) \<Longrightarrow> xs = ys"
proof (induction xs arbitrary: ys)
  case Nil
  then show ?case by simp
next
  case (Cons x xs)
  obtain k v where x: "x = (k, v)" by (cases x)
  from Cons.prems(1) x obtain w ys' where ys: "ys = (k, w) # ys'" and keys: "map fst xs = map fst ys'"
    by (cases ys) auto
  from Cons.prems(3) [of k] x ys have vw: "v = w" by simp
  have "xs = ys'"
  proof (rule Cons.IH [OF keys])
    show "distinct (map fst xs)" using Cons.prems(2) by simp
  next
    fix k' assume k': "k' \<in> fst ` set xs"
    with Cons.prems(2) x have "k' \<noteq> k" by auto
    with Cons.prems(3) [of k'] k' x ys show "get xs k' = get ys' k'" by auto
  qed
  with x ys vw show ?case by simp
qed

lemma copyLoop_keys:
  "distinct (map fst destination @ map fst rest) \<Longrightarrow>
   map fst (copyLoop destination rest) = map fst destination @ map fst rest"
proof (induction rest arbitrary: destination)
  case Nil
  then show ?case by simp
next
  case (Cons p rest)
  obtain k v where p: "p = (k, v)" by (cases p)
  from Cons.prems p have notin: "k \<notin> fst ` set destination" by auto
  let ?d = "put k (if typeof v = ''object'' then spread v else v) destination"
  have keys: "map fst ?d = map fst destination @ [k]" using notin by (rule keys_put_absent)
  with Cons.prems p have "distinct (map fst ?d @ map fst rest)" by auto
  from Cons.IH [OF this] keys p show ?case by simp
qed

lemma mergeLoop_keys:
  "mergeLoop target destination rest = Inr merged \<Longrightarrow> fst ` set rest \<subseteq> fst ` set destination \<Longrightarrow>
   map fst merged = map fst destination"
proof (induction rest arbitrary: destination)
  case Nil
  then show ?case by simp
next
  case (Cons p rest)
  obtain k v where p: "p = (k, v)" by (cases p)
  from Cons.prems(2) p have k: "k \<in> fst ` set destination" by auto
  from Cons.prems(1) p obtain w where loop: "mergeLoop target (put k w destination) rest = Inr merged"
    by (auto split: if_splits jsval.splits sum.splits)
  have keys: "map fst (put k w destination) = map fst destination" using k by (rule keys_put_present)
  then have "fst ` set (put k w destination) = fst ` set destination"
    by (metis list.set_map)
  with Cons.prems(2) have "fst ` set rest \<subseteq> fst ` set (put k w destination)" by auto
  from Cons.IH [OF loop this] keys show ?case by simp
qed

lemma mergeLoop_same_returns:
  assumes ih: "\<And>k s'. (k, VObj s') \<in> set target \<Longrightarrow> deepMerge s' s' = Inr s'"
    and dist: "distinct (map fst target)"
  shows "set rest \<subseteq> set target \<Longrightarrow> \<exists>merged. mergeLoop target destination rest = Inr merged"
proof (induction rest arbitrary: destination)
  case Nil
  then show ?case by simp
next
  case (Cons p rest)
  obtain k v where p: "p = (k, v)" by (cases p)
  from Cons.prems p have mem: "(k, v) \<in> set target" and sub: "set rest \<subseteq> set target" by auto
  from get_member [OF dist mem] have g: "get target k = v" .
  show ?case
  proof (cases v)
    case (VObj s')
    with ih mem have "deepMerge s' s' = Inr s'" by blast
    with p g VObj Cons.IH [OF sub] show ?thesis by simp
  qed (use p g Cons.IH [OF sub] in simp_all)
qed

lemma deepMerge_same:
  "wf v \<Longrightarrow> v = VObj X \<Longrightarrow> deepMerge X X = Inr X"
proof (induction v arbitrary: X)
  case (VObj ps)
  then have X: "X = ps" by simp
  from VObj.prems have dist: "distinct (map fst ps)" by simp
  have ih: "deepMerge s' s' = Inr s'" if "(k, VObj s') \<in> set ps" for k s'
  proof (rule VObj.IH [OF that])
    show "VObj s' \<in> Basic_BNFs.snds (k, VObj s')" by simp
    show "wf (VObj s')" using VObj.prems(1) that by force
  qed simp
  have "\<exists>merged. mergeLoop ps (copyLoop [] ps) ps = Inr merged"
  proof (rule mergeLoop_same_returns)
    show "\<And>k s'. (k, VObj s') \<in> set ps \<Longrightarrow> deepMerge s' s' = Inr s'" by (rule ih)
  qed (use dist in simp_all)
  then obtain merged where m: "mergeLoop ps (copyLoop [] ps) ps = Inr merged" ..
  have ck: "map fst (copyLoop [] ps) = map fst ps" using copyLoop_keys [of "[]" ps] dist by simp
  then have "fst ` set ps \<subseteq> fst ` set (copyLoop [] ps)" by (metis list.set_map order_refl)
  from mergeLoop_keys [OF m this] ck have keys: "map fst merged = map fst ps" by simp
  have "merged = ps"
  proof (rule obj_eqI [OF keys])
    show "distinct (map fst merged)" using keys dist by simp
  next
    fix k assume "k \<in> fst ` set merged"
    with keys have "k \<in> fst ` set ps" by (metis list.set_map)
    then obtain v where mem: "(k, v) \<in> set ps" by auto
    from get_member [OF dist mem] have g: "get ps k = v" .
    show "get merged k = get ps k"
    proof (cases "\<exists>s'. v = VObj s'")
      case True
      then obtain s' where v: "v = VObj s'" ..
      from mergeLoop_recurses [OF m dist] mem v g obtain r where
        "deepMerge s' s' = Inr r" and "get merged k = VObj r" by blast
      with ih mem v g show ?thesis by auto
    next
      case False
      with g have "\<forall>t'. get ps k \<noteq> VObj t'" by simp
      with mergeLoop_replaces [OF m dist mem] g show ?thesis by simp
    qed
  qed
  with m X show ?case by simp
qed simp_all

lemma mergeLoop_total:
  assumes ih: "\<And>k s' t'. (k, VObj s') \<in> set source \<Longrightarrow> \<exists>m. deepMerge t' s' = Inr m"
    and nf: "\<forall>p \<in> set source. snd p \<noteq> VNull"
  shows "set rest \<subseteq> set source \<Longrightarrow> \<exists>merged. mergeLoop target destination rest = Inr merged"
proof (induction rest arbitrary: destination)
  case Nil
  then show ?case by simp
next
  case (Cons p rest)
  obtain k v where p: "p = (k, v)" by (cases p)
  from Cons.prems p have mem: "(k, v) \<in> set source" and sub: "set rest \<subseteq> set source" by auto
  from nf mem have nn: "v \<noteq> VNull" by force
  show ?case
  proof (cases v)
    case (VObj s')
    show ?thesis
    proof (cases "get target k")
      case t: (VObj t')
      from ih mem VObj obtain m where "deepMerge t' s' = Inr m" by blast
      with p VObj t Cons.IH [OF sub] show ?thesis by simp
    qed (use p VObj Cons.IH [OF sub] in simp_all)
  qed (use p nn Cons.IH [OF sub] in simp_all)
qed

lemma deepMerge_total:
  "null_free v \<Longrightarrow> v = VObj source \<Longrightarrow> \<exists>merged. deepMerge target source = Inr merged"
proof (induction v arbitrary: source target)
  case (VObj ps)
  then have s: "source = ps" by simp
  have ih: "\<exists>m. deepMerge t' s' = Inr m" if "(k, VObj s') \<in> set ps" for k s' t'
  proof (rule VObj.IH [OF that])
    show "VObj s' \<in> Basic_BNFs.snds (k, VObj s')" by simp
    show "null_free (VObj s')" using VObj.prems(1) that by force
  qed simp
  have nf: "\<forall>p \<in> set ps. snd p \<noteq> VNull" using VObj.prems(1) by force
  have "\<exists>merged. mergeLoop target (copyLoop [] target) ps = Inr merged"
  proof (rule mergeLoop_total)
    show "\<And>k s' t'. (k, VObj s') \<in> set ps \<Longrightarrow> \<exists>m. deepMerge t' s' = Inr m" by (rule ih)
  qed (use nf in simp_all)
  with s show ?case by simp
qed simp_all

subsection \<open>The claims about \<^verbatim>\<open>_deepMerge\<close>\<close>

text \<open>
  \<^bold>\<open>C2.\<close> The claim: for all objects \<open>target\<close> and \<open>source\<close> and every key of \<open>source\<close>,
  \<^verbatim>\<open>merge(target, source)\<close> holds the value of the source at the key when \<open>target\<close> lacks the
  key or has no nested object there, and the recursive merge when both values are nested
  objects. It fails on the code where the source holds a \<^verbatim>\<open>null\<close> over a nested object of
  the target: for the target \<^verbatim>\<open>{a: {b: 1}}\<close> and the source \<^verbatim>\<open>{a: null, c: 5}\<close> the target lacks
  the key \<^verbatim>\<open>c\<close>, so the merge should hold 5 there, but the call has thrown at the key \<^verbatim>\<open>a\<close>
  and there is no merge.
\<close>

theorem deepMerge_null_beside_key_throws:
  "deepMerge [(''a'', VObj [(''b'', VNum (Fin 1))])] [(''a'', VNull), (''c'', VNum (Fin 5))]
     = Inl TypeError"
  by simp

text \<open>
  Apart from that, the rule of C2 holds for the objects of the model. For well-formed
  \<open>target\<close> and \<open>source\<close> and every property \<open>(key, sv)\<close> of \<open>source\<close>, when the call returns
  \<open>merged\<close>: if \<open>target\<close> lacks the key, or its value there is not a nested object, \<open>merged\<close>
  has \<open>sv\<close> at the key, also when \<open>sv\<close> is itself an object; if \<open>sv\<close> is neither an object
  nor \<^verbatim>\<open>null\<close>, \<open>merged\<close> has \<open>sv\<close> at the key whatever the target holds; if both values are
  nested objects, \<open>merged\<close> has their recursive merge. The call returns as soon as the
  source holds no \<^verbatim>\<open>null\<close>, and the two examples of the claim come out as it says.
\<close>

theorem deepMerge_per_key_rule:
  "(wf (VObj target) \<and> wf (VObj source) \<and> deepMerge target source = Inr merged \<and>
    (key, sv) \<in> set source \<longrightarrow>
      ((key \<notin> fst ` set target \<or> (\<forall>t'. get target key \<noteq> VObj t')) \<longrightarrow> get merged key = sv) \<and>
      ((\<forall>s'. sv \<noteq> VObj s') \<and> sv \<noteq> VNull \<longrightarrow> get merged key = sv) \<and>
      (\<forall>t' s'. get target key = VObj t' \<and> sv = VObj s' \<longrightarrow>
         (\<exists>r. deepMerge t' s' = Inr r \<and> get merged key = VObj r)))
   \<and> (null_free (VObj source) \<longrightarrow> (\<exists>m. deepMerge target source = Inr m))
   \<and> deepMerge [(''a'', VObj [(''b'', VNum (Fin 1))])] [(''a'', VNum (Fin 5))]
       = Inr [(''a'', VNum (Fin 5))]
   \<and> deepMerge [(''a'', VObj [(''b'', VNum (Fin 1)), (''c'', VNum (Fin 2))])]
         [(''a'', VObj [(''b'', VNum (Fin 9))])]
       = Inr [(''a'', VObj [(''b'', VNum (Fin 9)), (''c'', VNum (Fin 2))])]"
proof (intro conjI impI allI)
  assume h: "wf (VObj target) \<and> wf (VObj source) \<and> deepMerge target source = Inr merged \<and>
    (key, sv) \<in> set source"
  then have loop: "mergeLoop target (copyLoop [] target) source = Inr merged"
    and dist: "distinct (map fst source)" and mem: "(key, sv) \<in> set source" by simp_all
  {
    assume "key \<notin> fst ` set target \<or> (\<forall>t'. get target key \<noteq> VObj t')"
    then have "\<forall>t'. get target key \<noteq> VObj t'" by (auto simp: get_absent)
    with mergeLoop_replaces [OF loop dist mem] show "get merged key = sv" by blast
  }
  {
    assume "(\<forall>s'. sv \<noteq> VObj s') \<and> sv \<noteq> VNull"
    then have "typeof sv \<noteq> ''object''" by (cases sv) auto
    with mergeLoop_replaces [OF loop dist mem] show "get merged key = sv" by blast
  }
  {
    fix t' s' assume "get target key = VObj t' \<and> sv = VObj s'"
    with mergeLoop_recurses [OF loop dist, of key s' t'] mem
    show "\<exists>r. deepMerge t' s' = Inr r \<and> get merged key = VObj r" by blast
  }
next
  assume "null_free (VObj source)"
  then show "\<exists>m. deepMerge target source = Inr m" by (rule deepMerge_total [OF _ refl])
qed simp_all

theorem deepMerge_per_key_rule_witness:
  "wf (VObj [(''a'', VObj [(''b'', VNum (Fin 1)), (''c'', VNum (Fin 2))]), (''d'', VNum (Fin 4)),
             (''g'', VObj [(''h'', VNum (Fin 1))])])
   \<and> wf (VObj [(''a'', VObj [(''b'', VNum (Fin 9))]), (''d'', VObj [(''e'', VNum (Fin 1))]),
                (''f'', VStr ''x''), (''g'', VNum (Fin 7))])
   \<and> null_free (VObj [(''a'', VObj [(''b'', VNum (Fin 9))]), (''d'', VObj [(''e'', VNum (Fin 1))]),
                       (''f'', VStr ''x''), (''g'', VNum (Fin 7))])
   \<and> deepMerge [(''a'', VObj [(''b'', VNum (Fin 1)), (''c'', VNum (Fin 2))]), (''d'', VNum (Fin 4)),
                 (''g'', VObj [(''h'', VNum (Fin 1))])]
        [(''a'', VObj [(''b'', VNum (Fin 9))]), (''d'', VObj [(''e'', VNum (Fin 1))]),
         (''f'', VStr ''x''), (''g'', VNum (Fin 7))]
      = Inr [(''a'', VObj [(''b'', VNum (Fin 9)), (''c'', VNum (Fin 2))]),
             (''d'', VObj [(''e'', VNum (Fin 1))]), (''g'', VNum (Fin 7)), (''f'', VStr ''x'')]
   \<and> get [(''a'', VObj [(''b'', VNum (Fin 9)), (''c'', VNum (Fin 2))]),
           (''d'', VObj [(''e'', VNum (Fin 1))]), (''g'', VNum (Fin 7)), (''f'', VStr ''x'')] ''d''
      = VObj [(''e'', VNum (Fin 1))]
   \<and> get [(''a'', VObj [(''b'', VNum (Fin 9)), (''c'', VNum (Fin 2))]),
           (''d'', VObj [(''e'', VNum (Fin 1))]), (''g'', VNum (Fin 7)), (''f'', VStr ''x'')] ''g''
      = VNum (Fin 7)
   \<and> (\<exists>r. deepMerge [(''b'', VNum (Fin 1)), (''c'', VNum (Fin 2))] [(''b'', VNum (Fin 9))] = Inr r \<and>
          get [(''a'', VObj [(''b'', VNum (Fin 9)), (''c'', VNum (Fin 2))]),
               (''d'', VObj [(''e'', VNum (Fin 1))]), (''g'', VNum (Fin 7)), (''f'', VStr ''x'')] ''a''
            = VObj r)"
  using deepMerge_per_key_rule
    [of "[(''a'', VObj [(''b'', VNum (Fin 1)), (''c'', VNum (Fin 2))]), (''d'', VNum (Fin 4)),
          (''g'', VObj [(''h'', VNum (Fin 1))])]"
        "[(''a'', VObj [(''b'', VNum (Fin 9))]), (''d'', VObj [(''e'', VNum (Fin 1))]),
          (''f'', VStr ''x''), (''g'', VNum (Fin 7))]"
        "[(''a'', VObj [(''b'', VNum (Fin 9)), (''c'', VNum (Fin 2))]),
          (''d'', VObj [(''e'', VNum (Fin 1))]), (''g'', VNum (Fin 7)), (''f'', VStr ''x'')]"
        "''d''" "VObj [(''e'', VNum (Fin 1))]"]
    deepMerge_per_key_rule
    [of "[(''a'', VObj [(''b'', VNum (Fin 1)), (''c'', VNum (Fin 2))]), (''d'', VNum (Fin 4)),
          (''g'', VObj [(''h'', VNum (Fin 1))])]"
        "[(''a'', VObj [(''b'', VNum (Fin 9))]), (''d'', VObj [(''e'', VNum (Fin 1))]),
          (''f'', VStr ''x''), (''g'', VNum (Fin 7))]"
        "[(''a'', VObj [(''b'', VNum (Fin 9)), (''c'', VNum (Fin 2))]),
          (''d'', VObj [(''e'', VNum (Fin 1))]), (''g'', VNum (Fin 7)), (''f'', VStr ''x'')]"
        "''g''" "VNum (Fin 7)"]
  by (simp add: ordinary_key_def)

text \<open>
  \<^bold>\<open>C9.\<close> The claim: \<^verbatim>\<open>merge(X, X) = X\<close>, and for all inputs \<^verbatim>\<open>merge(target, source)\<close> returns
  a new object. The second part fails on the code: for the target \<^verbatim>\<open>{a: {b: 1}}\<close> and the
  source \<^verbatim>\<open>{a: null}\<close> the test \<^verbatim>\<open>typeof source[key] !== 'object'\<close> lets \<^verbatim>\<open>null\<close> through, and the
  recursive call raises a \<^verbatim>\<open>TypeError\<close> at \<^verbatim>\<open>Object.keys(null)\<close>.
\<close>

theorem deepMerge_null_source_throws:
  "deepMerge [(''a'', VObj [(''b'', VNum (Fin 1))])] [(''a'', VNull)] = Inl TypeError"
  by simp

text \<open>
  The first part of C9 holds: merging a well-formed object with itself returns it, values
  \<^verbatim>\<open>null\<close> included.
\<close>

theorem deepMerge_idempotent:
  "wf (VObj X) \<Longrightarrow> deepMerge X X = Inr X"
  by (rule deepMerge_same [OF _ refl])

theorem deepMerge_idempotent_witness:
  "wf (VObj [(''a'', VObj [(''b'', VNum (Fin 1)), (''n'', VNull)]), (''c'', VStr ''x'')]) \<and>
   deepMerge [(''a'', VObj [(''b'', VNum (Fin 1)), (''n'', VNull)]), (''c'', VStr ''x'')]
     [(''a'', VObj [(''b'', VNum (Fin 1)), (''n'', VNull)]), (''c'', VStr ''x'')]
   = Inr [(''a'', VObj [(''b'', VNum (Fin 1)), (''n'', VNull)]), (''c'', VStr ''x'')]"
  using deepMerge_idempotent [of "[(''a'', VObj [(''b'', VNum (Fin 1)), (''n'', VNull)]), (''c'', VStr ''x'')]"]
  by (simp add: ordinary_key_def)

text \<open>
  And \<^verbatim>\<open>_deepMerge\<close> returns for every target as soon as the source holds no \<^verbatim>\<open>null\<close>.
\<close>

theorem deepMerge_returns_without_null:
  "null_free (VObj source) \<Longrightarrow> \<exists>merged. deepMerge target source = Inr merged"
  by (rule deepMerge_total [OF _ refl])

theorem deepMerge_returns_without_null_witness:
  "null_free (VObj [(''a'', VObj [(''b'', VNum (Fin 9))])]) \<and>
   (\<exists>merged. deepMerge [(''a'', VNull)] [(''a'', VObj [(''b'', VNum (Fin 9))])] = Inr merged)"
  using deepMerge_returns_without_null [of "[(''a'', VObj [(''b'', VNum (Fin 9))])]" "[(''a'', VNull)]"]
  by simp

section \<open>Properties of the mutation methods\<close>

subsection \<open>\<^verbatim>\<open>update\<close> with the objects the methods build\<close>

lemma scalar_null_free: "typeof v \<noteq> ''object'' \<Longrightarrow> null_free v"
  by (cases v) auto

lemma update_scalars:
  assumes scalars: "\<forall>p \<in> set src. typeof (snd p) \<noteq> ''object''"
    and dist: "distinct (map fst src)"
  shows "\<exists>m. update src this = Return (this\<lparr>changes := m\<rparr>) \<and> (\<forall>p \<in> set src. get m (fst p) = snd p)"
proof -
  from scalars have "null_free (VObj src)" by (simp add: scalar_null_free)
  from deepMerge_total [OF this refl] obtain m where m: "deepMerge (changes this) src = Inr m" ..
  then have loop: "mergeLoop (changes this) (copyLoop [] (changes this)) src = Inr m" by simp
  have "get m (fst p) = snd p" if "p \<in> set src" for p
  proof -
    from that have mem: "(fst p, snd p) \<in> set src" by simp
    from scalars that have "typeof (snd p) \<noteq> ''object''" by blast
    with mergeLoop_replaces [OF loop dist mem] show ?thesis by blast
  qed
  with m show ?thesis by (auto simp: update_def)
qed

lemma update_nested_scalars:
  assumes scalars: "\<forall>p \<in> set inner. typeof (snd p) \<noteq> ''object''"
    and dist: "distinct (map fst inner)"
  shows "\<exists>m s. update [(key, VObj inner)] this = Return (this\<lparr>changes := m\<rparr>) \<and>
           get m key = VObj s \<and> (\<forall>p \<in> set inner. get s (fst p) = snd p)"
proof -
  let ?t = "changes this"
  from scalars have nf: "null_free (VObj [(key, VObj inner)])" by (simp add: scalar_null_free)
  from deepMerge_total [OF this refl] obtain m where m: "deepMerge ?t [(key, VObj inner)] = Inr m" ..
  then have loop: "mergeLoop ?t (copyLoop [] ?t) [(key, VObj inner)] = Inr m" by simp
  have "\<exists>s. get m key = VObj s \<and> (\<forall>p \<in> set inner. get s (fst p) = snd p)"
  proof (cases "\<exists>t'. get ?t key = VObj t'")
    case True
    then obtain t' where t': "get ?t key = VObj t'" ..
    from mergeLoop_recurses [OF loop _ _ t', of inner] obtain r where
      r: "deepMerge t' inner = Inr r" and g: "get m key = VObj r" by auto
    from r have rl: "mergeLoop t' (copyLoop [] t') inner = Inr r" by simp
    have "get r (fst p) = snd p" if "p \<in> set inner" for p
    proof -
      from that have mem: "(fst p, snd p) \<in> set inner" by simp
      from scalars that have "typeof (snd p) \<noteq> ''object''" by blast
      with mergeLoop_replaces [OF rl dist mem] show ?thesis by blast
    qed
    with g show ?thesis by blast
  next
    case False
    with mergeLoop_replaces [OF loop, of key "VObj inner"] have "get m key = VObj inner" by simp
    moreover have "get inner (fst p) = snd p" if "p \<in> set inner" for p
      using get_member [OF dist, of "fst p" "snd p"] that by simp
    ultimately show ?thesis by blast
  qed
  with m show ?thesis by (auto simp: update_def)
qed

subsection \<open>The effect of each method\<close>

lemma addPocket_effect:
  assumes "truthy amount" and num: "toNumber N amount = Some n"
  shows "\<exists>m. addPocket N amount this =
           Return (this\<lparr>pocket := js_plus (pocket this) n,
                        won := js_plus (won this) n, changes := m\<rparr>) \<and>
           get m ''pocket'' = row_add ''pocket'' n \<and>
           get m ''won'' = row_add ''won'' n"
proof -
  let ?n = "n"
  let ?src = "[(''pocket'', row_add ''pocket'' ?n), (''won'', row_add ''won'' ?n)]"
  let ?this = "this\<lparr>pocket := js_plus (pocket this) ?n, won := js_plus (won this) ?n\<rparr>"
  have "\<exists>m. update ?src ?this = Return (?this\<lparr>changes := m\<rparr>) \<and> (\<forall>p \<in> set ?src. get m (fst p) = snd p)"
    by (rule update_scalars) (simp_all add: row_add_def)
  with assms show ?thesis by (simp add: addPocket_def Let_def)
qed

lemma removePocket_effect:
  assumes "truthy amount" and num: "toNumber N amount = Some n"
  shows "\<exists>m. removePocket N amount this =
           Return (this\<lparr>pocket := Math_max (js_minus (pocket this) n) (Fin 0),
                        lost := js_plus (lost this) n, changes := m\<rparr>) \<and>
           get m ''pocket'' = row_sub_max0 ''pocket'' n \<and>
           get m ''lost'' = row_add ''lost'' n"
proof -
  let ?n = "n"
  let ?src = "[(''pocket'', row_sub_max0 ''pocket'' ?n), (''lost'', row_add ''lost'' ?n)]"
  let ?this = "this\<lparr>pocket := Math_max (js_minus (pocket this) ?n) (Fin 0), lost := js_plus (lost this) ?n\<rparr>"
  have "\<exists>m. update ?src ?this = Return (?this\<lparr>changes := m\<rparr>) \<and> (\<forall>p \<in> set ?src. get m (fst p) = snd p)"
    by (rule update_scalars) (simp_all add: row_add_def row_sub_max0_def)
  with assms show ?thesis by (simp add: removePocket_def Let_def)
qed

lemma addBank_transfer_effect:
  assumes "truthy amount" and num: "toNumber N amount = Some n" and "transfer = VUndef \<or> truthy transfer"
  shows "\<exists>m. addBank N amount transfer this =
           Return (this\<lparr>bank := js_plus (bank this) n,
                        pocket := Math_max (js_minus (pocket this) n) (Fin 0),
                        changes := m\<rparr>) \<and>
           get m ''bank'' = row_add ''bank'' n \<and>
           get m ''pocket'' = row_sub_max0 ''pocket'' n"
proof -
  let ?n = "n"
  let ?src = "[(''bank'', row_add ''bank'' ?n), (''pocket'', row_sub_max0 ''pocket'' ?n)]"
  let ?this = "this\<lparr>bank := js_plus (bank this) ?n, pocket := Math_max (js_minus (pocket this) ?n) (Fin 0)\<rparr>"
  have "\<exists>m. update ?src ?this = Return (?this\<lparr>changes := m\<rparr>) \<and> (\<forall>p \<in> set ?src. get m (fst p) = snd p)"
    by (rule update_scalars) (simp_all add: row_add_def row_sub_max0_def)
  with assms show ?thesis by (cases "transfer = VUndef") (simp_all add: addBank_def Let_def)
qed

lemma addBank_no_transfer_effect:
  assumes "truthy amount" and num: "toNumber N amount = Some n" and "transfer \<noteq> VUndef" and "\<not> truthy transfer"
  shows "\<exists>m. addBank N amount transfer this =
           Return (this\<lparr>bank := js_plus (bank this) n, changes := m\<rparr>) \<and>
           get m ''bank'' = row_add ''bank'' n"
proof -
  let ?n = "n"
  let ?src = "[(''bank'', row_add ''bank'' ?n)]"
  let ?this = "this\<lparr>bank := js_plus (bank this) ?n\<rparr>"
  have "\<exists>m. update ?src ?this = Return (?this\<lparr>changes := m\<rparr>) \<and> (\<forall>p \<in> set ?src. get m (fst p) = snd p)"
    by (rule update_scalars) (simp_all add: row_add_def)
  with assms show ?thesis by (cases "transfer = VUndef") (simp_all add: addBank_def Let_def)
qed

lemma removeBank_transfer_effect:
  assumes "truthy amount" and num: "toNumber N amount = Some n" and "transfer = VUndef \<or> truthy transfer"
  shows "\<exists>m. removeBank N amount transfer this =
           Return (this\<lparr>bank := Math_max (js_minus (bank this) n) (Fin 0),
                        pocket := js_plus (pocket this) n,
                        changes := m\<rparr>) \<and>
           get m ''bank'' = row_sub_max0 ''bank'' n \<and>
           get m ''pocket'' = row_add ''pocket'' n"
proof -
  let ?n = "n"
  let ?src = "[(''bank'', row_sub_max0 ''bank'' ?n), (''pocket'', row_add ''pocket'' ?n)]"
  let ?this = "this\<lparr>bank := Math_max (js_minus (bank this) ?n) (Fin 0), pocket := js_plus (pocket this) ?n\<rparr>"
  have "\<exists>m. update ?src ?this = Return (?this\<lparr>changes := m\<rparr>) \<and> (\<forall>p \<in> set ?src. get m (fst p) = snd p)"
    by (rule update_scalars) (simp_all add: row_add_def row_sub_max0_def)
  with assms show ?thesis by (cases "transfer = VUndef") (simp_all add: removeBank_def Let_def)
qed

lemma removeBank_no_transfer_effect:
  assumes "truthy amount" and num: "toNumber N amount = Some n" and "transfer \<noteq> VUndef" and "\<not> truthy transfer"
  shows "\<exists>m. removeBank N amount transfer this =
           Return (this\<lparr>bank := Math_max (js_minus (bank this) n) (Fin 0), changes := m\<rparr>) \<and>
           get m ''bank'' = row_sub_max0 ''bank'' n"
proof -
  let ?n = "n"
  let ?src = "[(''bank'', row_sub_max0 ''bank'' ?n)]"
  let ?this = "this\<lparr>bank := Math_max (js_minus (bank this) ?n) (Fin 0)\<rparr>"
  have "\<exists>m. update ?src ?this = Return (?this\<lparr>changes := m\<rparr>) \<and> (\<forall>p \<in> set ?src. get m (fst p) = snd p)"
    by (rule update_scalars) (simp_all add: row_sub_max0_def)
  with assms show ?thesis by (cases "transfer = VUndef") (simp_all add: removeBank_def Let_def)
qed

lemma addBank_queues:
  assumes "truthy amount" and num: "toNumber N amount = Some n"
  shows "\<exists>r. addBank N amount transfer this = Return r \<and>
           get (changes r) ''bank'' = row_add ''bank'' n \<and>
           (transfer = VUndef \<or> truthy transfer \<longrightarrow>
              get (changes r) ''pocket'' = row_sub_max0 ''pocket'' n)"
proof (cases "transfer = VUndef \<or> truthy transfer")
  case True
  from addBank_transfer_effect [where this = this, OF assms True] obtain m where
    "addBank N amount transfer this =
       Return (this\<lparr>bank := js_plus (bank this) n,
                    pocket := Math_max (js_minus (pocket this) n) (Fin 0), changes := m\<rparr>)"
    and "get m ''bank'' = row_add ''bank'' n"
    and "get m ''pocket'' = row_sub_max0 ''pocket'' n" by blast
  then show ?thesis by simp
next
  case False
  then have "transfer \<noteq> VUndef" and "\<not> truthy transfer" by simp_all
  from addBank_no_transfer_effect [where this = this, OF assms this] obtain m where
    "addBank N amount transfer this =
       Return (this\<lparr>bank := js_plus (bank this) n, changes := m\<rparr>)"
    and "get m ''bank'' = row_add ''bank'' n" by blast
  with False show ?thesis by simp
qed

lemma removeBank_queues:
  assumes "truthy amount" and num: "toNumber N amount = Some n"
  shows "\<exists>r. removeBank N amount transfer this = Return r \<and>
           get (changes r) ''bank'' = row_sub_max0 ''bank'' n \<and>
           (transfer = VUndef \<or> truthy transfer \<longrightarrow>
              get (changes r) ''pocket'' = row_add ''pocket'' n)"
proof (cases "transfer = VUndef \<or> truthy transfer")
  case True
  from removeBank_transfer_effect [where this = this, OF assms True] obtain m where
    "removeBank N amount transfer this =
       Return (this\<lparr>bank := Math_max (js_minus (bank this) n) (Fin 0),
                    pocket := js_plus (pocket this) n, changes := m\<rparr>)"
    and "get m ''bank'' = row_sub_max0 ''bank'' n"
    and "get m ''pocket'' = row_add ''pocket'' n" by blast
  then show ?thesis by simp
next
  case False
  then have "transfer \<noteq> VUndef" and "\<not> truthy transfer" by simp_all
  from removeBank_no_transfer_effect [where this = this, OF assms this] obtain m where
    "removeBank N amount transfer this =
       Return (this\<lparr>bank := Math_max (js_minus (bank this) n) (Fin 0), changes := m\<rparr>)"
    and "get m ''bank'' = row_sub_max0 ''bank'' n" by blast
  with False show ?thesis by simp
qed

lemma updateStreak_effect:
  "\<exists>m s. updateStreak now timestamp streak' this =
       Return (this\<lparr>streak :=
                 \<lparr>streak_time = (case timestamp of None \<Rightarrow> now | Some t \<Rightarrow> t),
                  streak_streak = (case streak' of
                                     None \<Rightarrow> js_plus (streak_streak (streak this)) (Fin 1)
                                   | Some n \<Rightarrow> n)\<rparr>,
               changes := m\<rparr>) \<and>
     get m ''streak'' = VObj s \<and>
     get s ''time'' = VNum (case timestamp of None \<Rightarrow> now | Some t \<Rightarrow> t) \<and>
     get s ''streak'' = VTerm (R_add (R_bracket (R_row ''streak'') ''streak'') (Fin 1))"
proof -
  let ?ts = "case timestamp of None \<Rightarrow> now | Some t \<Rightarrow> t"
  let ?st = "case streak' of None \<Rightarrow> js_plus (streak_streak (streak this)) (Fin 1) | Some n \<Rightarrow> n"
  let ?inner = "[(''time'', VNum ?ts),
                 (''streak'', VTerm (R_add (R_bracket (R_row ''streak'') ''streak'') (Fin 1)))]"
  let ?this = "this\<lparr>streak := \<lparr>streak_time = ?ts, streak_streak = ?st\<rparr>\<rparr>"
  have "\<exists>m s. update [(''streak'', VObj ?inner)] ?this = Return (?this\<lparr>changes := m\<rparr>) \<and>
          get m ''streak'' = VObj s \<and> (\<forall>p \<in> set ?inner. get s (fst p) = snd p)"
    by (rule update_nested_scalars) simp_all
  then show ?thesis by (force simp: updateStreak_def Let_def)
qed

lemma resetStreak_effect:
  "\<exists>m s. resetStreak this =
       Return (this\<lparr>streak := (streak this)\<lparr>streak_streak := Fin 0\<rparr>, changes := m\<rparr>) \<and>
     get m ''streak'' = VObj s \<and> get s ''streak'' = VNum (Fin 0)"
proof -
  let ?inner = "[(''streak'', VNum (Fin 0))]"
  let ?this = "this\<lparr>streak := (streak this)\<lparr>streak_streak := Fin 0\<rparr>\<rparr>"
  have "\<exists>m s. update [(''streak'', VObj ?inner)] ?this = Return (?this\<lparr>changes := m\<rparr>) \<and>
          get m ''streak'' = VObj s \<and> (\<forall>p \<in> set ?inner. get s (fst p) = snd p)"
    by (rule update_nested_scalars) simp_all
  then show ?thesis by (force simp: resetStreak_def Let_def)
qed

lemma addPls_effect:
  "\<exists>m. addPls amount this =
       Return (this\<lparr>pls := js_plus (pls this) (case amount of None \<Rightarrow> Fin 1 | Some n \<Rightarrow> n),
               changes := m\<rparr>) \<and>
     get m ''pls'' = row_add ''pls'' (case amount of None \<Rightarrow> Fin 1 | Some n \<Rightarrow> n)"
proof -
  let ?n = "case amount of None \<Rightarrow> Fin 1 | Some n \<Rightarrow> n"
  let ?src = "[(''pls'', row_add ''pls'' ?n)]"
  let ?this = "this\<lparr>pls := js_plus (pls this) ?n\<rparr>"
  have "\<exists>m. update ?src ?this = Return (?this\<lparr>changes := m\<rparr>) \<and> (\<forall>p \<in> set ?src. get m (fst p) = snd p)"
    by (rule update_scalars) (simp_all add: row_add_def)
  then show ?thesis by (simp add: addPls_def Let_def)
qed

lemma addSpam_effect:
  "\<exists>m. addSpam amount this =
       Return (this\<lparr>spam := js_plus (spam this) (case amount of None \<Rightarrow> Fin 1 | Some n \<Rightarrow> n),
               changes := m\<rparr>) \<and>
     get m ''spam'' = row_add ''spam'' (case amount of None \<Rightarrow> Fin 1 | Some n \<Rightarrow> n)"
proof -
  let ?n = "case amount of None \<Rightarrow> Fin 1 | Some n \<Rightarrow> n"
  let ?src = "[(''spam'', row_add ''spam'' ?n)]"
  let ?this = "this\<lparr>spam := js_plus (spam this) ?n\<rparr>"
  have "\<exists>m. update ?src ?this = Return (?this\<lparr>changes := m\<rparr>) \<and> (\<forall>p \<in> set ?src. get m (fst p) = snd p)"
    by (rule update_scalars) (simp_all add: row_add_def)
  then show ?thesis by (simp add: addSpam_def Let_def)
qed

lemma setLastCmd_effect:
  "\<exists>m. setLastCmd now cmd timestamp this =
       Return (this\<lparr>lastRan := (case cmd of None \<Rightarrow> ''nothing'' | Some c \<Rightarrow> c),
                    lastCmd := (case timestamp of None \<Rightarrow> now | Some t \<Rightarrow> t),
                    changes := m\<rparr>) \<and>
     get m ''lastCmd'' = VNum (case timestamp of None \<Rightarrow> now | Some t \<Rightarrow> t) \<and>
     get m ''lastRan'' = VStr (case cmd of None \<Rightarrow> ''nothing'' | Some c \<Rightarrow> c)"
proof -
  let ?c = "case cmd of None \<Rightarrow> ''nothing'' | Some c \<Rightarrow> c"
  let ?t = "case timestamp of None \<Rightarrow> now | Some t \<Rightarrow> t"
  let ?src = "[(''lastCmd'', VNum ?t), (''lastRan'', VStr ?c)]"
  let ?this = "this\<lparr>lastRan := ?c, lastCmd := ?t\<rparr>"
  have "\<exists>m. update ?src ?this = Return (?this\<lparr>changes := m\<rparr>) \<and> (\<forall>p \<in> set ?src. get m (fst p) = snd p)"
    by (rule update_scalars) simp_all
  then show ?thesis by (simp add: setLastCmd_def Let_def)
qed

text \<open>
  A currency method throws the missing-argument error exactly for a falsy amount, and
  then before it has assigned anything.
\<close>

lemma addPocket_throws:
  "(addPocket N amount this = Throw MissingArgument r) = (\<not> truthy amount \<and> r = this)"
proof (cases "truthy amount")
  case True
  show ?thesis
  proof (cases "toNumber N amount")
    case None
    with True show ?thesis by (simp add: addPocket_def)
  next
    case (Some n)
    from addPocket_effect [where this = this, OF True Some]
    obtain x where "addPocket N amount this = Return x" by blast
    with True show ?thesis by simp
  qed
next
  case False
  then show ?thesis by (auto simp: addPocket_def)
qed

lemma removePocket_throws:
  "(removePocket N amount this = Throw MissingArgument r) = (\<not> truthy amount \<and> r = this)"
proof (cases "truthy amount")
  case True
  show ?thesis
  proof (cases "toNumber N amount")
    case None
    with True show ?thesis by (simp add: removePocket_def)
  next
    case (Some n)
    from removePocket_effect [where this = this, OF True Some]
    obtain x where "removePocket N amount this = Return x" by blast
    with True show ?thesis by simp
  qed
next
  case False
  then show ?thesis by (auto simp: removePocket_def)
qed

lemma addBank_throws:
  "(addBank N amount transfer this = Throw MissingArgument r) = (\<not> truthy amount \<and> r = this)"
proof (cases "truthy amount")
  case True
  show ?thesis
  proof (cases "toNumber N amount")
    case None
    with True show ?thesis by (simp add: addBank_def Let_def)
  next
    case (Some n)
    from addBank_queues [where this = this and transfer = transfer, OF True Some]
    obtain x where "addBank N amount transfer this = Return x" by blast
    with True show ?thesis by simp
  qed
next
  case False
  then show ?thesis by (auto simp: addBank_def Let_def)
qed

lemma removeBank_throws:
  "(removeBank N amount transfer this = Throw MissingArgument r) = (\<not> truthy amount \<and> r = this)"
proof (cases "truthy amount")
  case True
  show ?thesis
  proof (cases "toNumber N amount")
    case None
    with True show ?thesis by (simp add: removeBank_def Let_def)
  next
    case (Some n)
    from removeBank_queues [where this = this and transfer = transfer, OF True Some]
    obtain x where "removeBank N amount transfer this = Return x" by blast
    with True show ?thesis by simp
  qed
next
  case False
  then show ?thesis by (auto simp: removeBank_def Let_def)
qed

subsection \<open>The claims about the methods\<close>

text \<open>
  \<^bold>\<open>C3.\<close> A later mutation overwrites the pending operation of an earlier one on the same
  field path. After \<^verbatim>\<open>addPocket(a)\<close> and then \<^verbatim>\<open>removePocket(b)\<close> the entry \<^verbatim>\<open>pocket\<close> of the
  changes is the operation of \<^verbatim>\<open>removePocket(b)\<close> alone. More generally, whatever the changes
  of the entry hold before the call (so whatever an earlier mutation has queued), after each
  method the entry at every path the method touches is the operation of that call. (A
  currency method queues its operation once the amount is truthy and has its number.)
\<close>

theorem later_mutation_overwrites:
  "(truthy a \<and> toNumber N a = Some na \<and> truthy b \<and> toNumber N b = Some nb \<longrightarrow>
      (\<exists>r1 r2. addPocket N a this = Return r1 \<and> removePocket N b r1 = Return r2 \<and>
         get (changes r2) ''pocket'' = row_sub_max0 ''pocket'' nb))
   \<and> (truthy b \<and> toNumber N b = Some nb \<longrightarrow>
      (\<exists>r. addPocket N b this = Return r \<and>
         get (changes r) ''pocket'' = row_add ''pocket'' nb \<and>
         get (changes r) ''won'' = row_add ''won'' nb) \<and>
      (\<exists>r. removePocket N b this = Return r \<and>
         get (changes r) ''pocket'' = row_sub_max0 ''pocket'' nb \<and>
         get (changes r) ''lost'' = row_add ''lost'' nb) \<and>
      (\<exists>r. addBank N b transfer this = Return r \<and>
         get (changes r) ''bank'' = row_add ''bank'' nb \<and>
         (transfer = VUndef \<or> truthy transfer \<longrightarrow>
            get (changes r) ''pocket'' = row_sub_max0 ''pocket'' nb)) \<and>
      (\<exists>r. removeBank N b transfer this = Return r \<and>
         get (changes r) ''bank'' = row_sub_max0 ''bank'' nb \<and>
         (transfer = VUndef \<or> truthy transfer \<longrightarrow>
            get (changes r) ''pocket'' = row_add ''pocket'' nb)))
   \<and> (\<exists>r s. updateStreak now timestamp streak' this = Return r \<and>
         get (changes r) ''streak'' = VObj s \<and>
         get s ''time'' = VNum (case timestamp of None \<Rightarrow> now | Some t \<Rightarrow> t) \<and>
         get s ''streak'' = VTerm (R_add (R_bracket (R_row ''streak'') ''streak'') (Fin 1)))
   \<and> (\<exists>r s. resetStreak this = Return r \<and>
         get (changes r) ''streak'' = VObj s \<and> get s ''streak'' = VNum (Fin 0))
   \<and> (\<exists>r. addPls count this = Return r \<and>
         get (changes r) ''pls'' = row_add ''pls'' (case count of None \<Rightarrow> Fin 1 | Some n \<Rightarrow> n))
   \<and> (\<exists>r. addSpam count this = Return r \<and>
         get (changes r) ''spam'' = row_add ''spam'' (case count of None \<Rightarrow> Fin 1 | Some n \<Rightarrow> n))
   \<and> (\<exists>r. setLastCmd now cmd timestamp this = Return r \<and>
         get (changes r) ''lastCmd'' = VNum (case timestamp of None \<Rightarrow> now | Some t \<Rightarrow> t) \<and>
         get (changes r) ''lastRan'' = VStr (case cmd of None \<Rightarrow> ''nothing'' | Some c \<Rightarrow> c))"
proof (intro conjI impI)
  assume ab: "truthy a \<and> toNumber N a = Some na \<and> truthy b \<and> toNumber N b = Some nb"
  then have a: "truthy a" and na: "toNumber N a = Some na"
    and b: "truthy b" and nb: "toNumber N b = Some nb" by simp_all
  from addPocket_effect [where this = this, OF a na] obtain r1 where r1: "addPocket N a this = Return r1" by blast
  from removePocket_effect [where this = r1, OF b nb] obtain m where
    "removePocket N b r1 = Return (r1\<lparr>pocket := Math_max (js_minus (pocket r1) nb) (Fin 0),
        lost := js_plus (lost r1) nb, changes := m\<rparr>)"
    and "get m ''pocket'' = row_sub_max0 ''pocket'' nb" by blast
  with r1 show "\<exists>r1 r2. addPocket N a this = Return r1 \<and> removePocket N b r1 = Return r2 \<and>
         get (changes r2) ''pocket'' = row_sub_max0 ''pocket'' nb" by force
next
  assume "truthy b \<and> toNumber N b = Some nb"
  then have b: "truthy b" and nb: "toNumber N b = Some nb" by simp_all
  from addPocket_effect [where this = this, OF b nb]
  show "\<exists>r. addPocket N b this = Return r \<and>
         get (changes r) ''pocket'' = row_add ''pocket'' nb \<and>
         get (changes r) ''won'' = row_add ''won'' nb" by force
next
  assume "truthy b \<and> toNumber N b = Some nb"
  then have b: "truthy b" and nb: "toNumber N b = Some nb" by simp_all
  from removePocket_effect [where this = this, OF b nb]
  show "\<exists>r. removePocket N b this = Return r \<and>
         get (changes r) ''pocket'' = row_sub_max0 ''pocket'' nb \<and>
         get (changes r) ''lost'' = row_add ''lost'' nb" by force
next
  assume "truthy b \<and> toNumber N b = Some nb"
  then have b: "truthy b" and nb: "toNumber N b = Some nb" by simp_all
  from b nb show "\<exists>r. addBank N b transfer this = Return r \<and>
         get (changes r) ''bank'' = row_add ''bank'' nb \<and>
         (transfer = VUndef \<or> truthy transfer \<longrightarrow>
            get (changes r) ''pocket'' = row_sub_max0 ''pocket'' nb)"
    by (rule addBank_queues)
next
  assume "truthy b \<and> toNumber N b = Some nb"
  then have b: "truthy b" and nb: "toNumber N b = Some nb" by simp_all
  from b nb show "\<exists>r. removeBank N b transfer this = Return r \<and>
         get (changes r) ''bank'' = row_sub_max0 ''bank'' nb \<and>
         (transfer = VUndef \<or> truthy transfer \<longrightarrow>
            get (changes r) ''pocket'' = row_add ''pocket'' nb)"
    by (rule removeBank_queues)
next
  from updateStreak_effect [of now timestamp streak' this]
  show "\<exists>r s. updateStreak now timestamp streak' this = Return r \<and>
         get (changes r) ''streak'' = VObj s \<and>
         get s ''time'' = VNum (case timestamp of None \<Rightarrow> now | Some t \<Rightarrow> t) \<and>
         get s ''streak'' = VTerm (R_add (R_bracket (R_row ''streak'') ''streak'') (Fin 1))"
    by force
next
  from resetStreak_effect [of this]
  show "\<exists>r s. resetStreak this = Return r \<and>
         get (changes r) ''streak'' = VObj s \<and> get s ''streak'' = VNum (Fin 0)"
    by force
next
  from addPls_effect [of count this]
  show "\<exists>r. addPls count this = Return r \<and>
         get (changes r) ''pls'' = row_add ''pls'' (case count of None \<Rightarrow> Fin 1 | Some n \<Rightarrow> n)"
    by force
next
  from addSpam_effect [of count this]
  show "\<exists>r. addSpam count this = Return r \<and>
         get (changes r) ''spam'' = row_add ''spam'' (case count of None \<Rightarrow> Fin 1 | Some n \<Rightarrow> n)"
    by force
next
  from setLastCmd_effect [of now cmd timestamp this]
  show "\<exists>r. setLastCmd now cmd timestamp this = Return r \<and>
         get (changes r) ''lastCmd'' = VNum (case timestamp of None \<Rightarrow> now | Some t \<Rightarrow> t) \<and>
         get (changes r) ''lastRan'' = VStr (case cmd of None \<Rightarrow> ''nothing'' | Some c \<Rightarrow> c)"
    by force
qed

theorem later_mutation_overwrites_witness:
  "truthy (VNum (Fin 10)) \<and> toNumber no_Number (VNum (Fin 10)) = Some (Fin 10) \<and>
   truthy (VNum (Fin 5)) \<and> toNumber no_Number (VNum (Fin 5)) = Some (Fin 5) \<and>
   (\<exists>r1 r2. addPocket no_Number (VNum (Fin 10)) example_entry = Return r1 \<and>
      removePocket no_Number (VNum (Fin 5)) r1 = Return r2 \<and>
      get (changes r2) ''pocket'' = row_sub_max0 ''pocket'' (Fin 5))"
  using later_mutation_overwrites
    [of "VNum (Fin 10)" no_Number "Fin 10" "VNum (Fin 5)" "Fin 5" example_entry]
  by simp




text \<open>
  \<^bold>\<open>C5\<close>, amended. For every entry whose \<^verbatim>\<open>bank\<close> and \<^verbatim>\<open>pocket\<close> are safe integers and every
  non-zero safe integer \<open>a\<close> such that \<open>bank + a\<close> and \<open>pocket - a\<close> are safe integers too,
  \<^verbatim>\<open>addBank(a)\<close> with \<^verbatim>\<open>transfer\<close> omitted or truthy sets \<^verbatim>\<open>bank\<close> to \<open>bank + a\<close> and \<^verbatim>\<open>pocket\<close> to
  \<open>max (pocket - a) 0\<close>, which is never negative; with 50 in the pocket and an empty bank,
  \<^verbatim>\<open>addBank(100)\<close> gives pocket 0 and bank 100.
\<close>

theorem addBank_transfer_local:
  "a \<noteq> 0 \<and> bank this = Fin b \<and> pocket this = Fin p \<and>
   isSafeInteger b \<and> isSafeInteger p \<and> isSafeInteger a \<and>
   isSafeInteger (b + a) \<and> isSafeInteger (p - a) \<and>
   (transfer = VUndef \<or> truthy transfer) \<longrightarrow>
     (\<exists>r. addBank N (VNum (Fin a)) transfer this = Return r \<and>
        bank r = Fin (b + a) \<and> pocket r = Fin (max (p - a) 0) \<and> 0 \<le> max (p - a) 0)"
proof
  assume h: "a \<noteq> 0 \<and> bank this = Fin b \<and> pocket this = Fin p \<and>
    isSafeInteger b \<and> isSafeInteger p \<and> isSafeInteger a \<and>
    isSafeInteger (b + a) \<and> isSafeInteger (p - a) \<and>
    (transfer = VUndef \<or> truthy transfer)"
  then have t: "truthy (VNum (Fin a))" and n: "toNumber N (VNum (Fin a)) = Some (Fin a)"
    and tr: "transfer = VUndef \<or> truthy transfer" by simp_all
  from h have "js_plus (Fin b) (Fin a) = Fin (b + a)" and "js_minus (Fin p) (Fin a) = Fin (p - a)"
    by (simp_all add: to_double_safe)
  with addBank_transfer_effect [where this = this, OF t n tr] h
  show "\<exists>r. addBank N (VNum (Fin a)) transfer this = Return r \<and>
        bank r = Fin (b + a) \<and> pocket r = Fin (max (p - a) 0) \<and> 0 \<le> max (p - a) 0"
    by force
qed

theorem addBank_transfer_local_witness:
  "(100::int) \<noteq> 0 \<and> bank example_entry = Fin 0 \<and> pocket example_entry = Fin 50 \<and>
   isSafeInteger 0 \<and> isSafeInteger 50 \<and> isSafeInteger 100 \<and>
   isSafeInteger (0 + 100) \<and> isSafeInteger (50 - 100) \<and> truthy (VBool True) \<and>
   (\<exists>r. addBank no_Number (VNum (Fin 100)) (VBool True) example_entry = Return r \<and>
      bank r = Fin 100 \<and> pocket r = Fin 0)"
  using addBank_transfer_local [of 100 example_entry 0 50 "VBool True" no_Number]
  by (simp add: example_entry_def new_UserEntry_def UserData.extend_def UserEntry.fields_def
      isSafeInteger_def)

text \<open>
  C5 as stated fails beyond the safe integers: with \<open>2 ^ 53\<close> in the bank, \<^verbatim>\<open>addBank(1)\<close>
  leaves the bank at \<open>2 ^ 53\<close>, not at \<open>bank + 1\<close>.
\<close>

theorem addBank_rounding_counterexample:
  "addBank no_Number (VNum (Fin 1)) VUndef (example_entry\<lparr>bank := Fin 9007199254740992\<rparr>) =
     Return (example_entry\<lparr>bank := Fin 9007199254740992, pocket := Fin 49,
       changes := [(''bank'', row_add ''bank'' (Fin 1)),
                   (''pocket'', row_sub_max0 ''pocket'' (Fin 1))]\<rparr>)"
  by (simp add: addBank_def update_def example_entry_def new_UserEntry_def
      UserData.extend_def UserEntry.fields_def row_add_def row_sub_max0_def Let_def
      to_double_safe isSafeInteger_def to_double_rounds)

text \<open>
  \<^bold>\<open>C6.\<close> \<^verbatim>\<open>updateStreak(timestamp, streak)\<close> sets the local \<^verbatim>\<open>streak\<close> to
  \<^verbatim>\<open>{time: timestamp, streak: streak}\<close>, with \<^verbatim>\<open>Date.now()\<close> and the current streak plus one
  for omitted arguments, and queues under \<^verbatim>\<open>streak\<close> the literal timestamp for \<^verbatim>\<open>time\<close> and
  the relative operation \<^verbatim>\<open>r.row('streak')('streak').add(1)\<close> for \<^verbatim>\<open>streak\<close>, whatever the
  streak argument is.
\<close>

theorem updateStreak_local_and_deferred:
  "\<exists>r s. updateStreak now timestamp streak' this = Return r \<and>
     streak r =
       \<lparr>streak_time = (case timestamp of None \<Rightarrow> now | Some t \<Rightarrow> t),
        streak_streak = (case streak' of
                           None \<Rightarrow> js_plus (streak_streak (streak this)) (Fin 1)
                         | Some n \<Rightarrow> n)\<rparr> \<and>
     get (changes r) ''streak'' = VObj s \<and>
     get s ''time'' = VNum (case timestamp of None \<Rightarrow> now | Some t \<Rightarrow> t) \<and>
     get s ''streak'' = VTerm (R_add (R_bracket (R_row ''streak'') ''streak'') (Fin 1))"
  using updateStreak_effect [of now timestamp streak' this] by force

theorem updateStreak_local_and_deferred_witness:
  "\<exists>r s. updateStreak (Fin 1000) None (Some (Fin 7)) example_entry = Return r \<and>
     streak r = \<lparr>streak_time = Fin 1000, streak_streak = Fin 7\<rparr> \<and>
     get (changes r) ''streak'' = VObj s \<and>
     get s ''time'' = VNum (Fin 1000) \<and>
     get s ''streak'' = VTerm (R_add (R_bracket (R_row ''streak'') ''streak'') (Fin 1))"
  using updateStreak_local_and_deferred [of "Fin 1000" None "Some (Fin 7)" example_entry]
  by simp

text \<open>
  \<^bold>\<open>C7.\<close> Each of \<^verbatim>\<open>addPocket\<close>, \<^verbatim>\<open>removePocket\<close>, \<^verbatim>\<open>addBank\<close> and \<^verbatim>\<open>removeBank\<close> throws
  the missing-argument error if and only if the amount is falsy, for every value of the
  amount and whatever \<^verbatim>\<open>Number\<close> does with it; and the entry at that throw is the entry
  before the call, fields and changes alike. The methods are synchronous: the outcome is
  that of the call itself.
\<close>

theorem currency_methods_missing_argument:
  "((addPocket N amount this = Throw MissingArgument r) = (\<not> truthy amount \<and> r = this)) \<and>
   ((removePocket N amount this = Throw MissingArgument r) = (\<not> truthy amount \<and> r = this)) \<and>
   ((addBank N amount transfer this = Throw MissingArgument r) = (\<not> truthy amount \<and> r = this)) \<and>
   ((removeBank N amount transfer this = Throw MissingArgument r) = (\<not> truthy amount \<and> r = this))"
  by (simp only: addPocket_throws removePocket_throws addBank_throws removeBank_throws simp_thms)

theorem currency_methods_missing_argument_witness:
  "\<not> truthy (VNum (Fin 0)) \<and> \<not> truthy VUndef \<and> \<not> truthy (VStr []) \<and> \<not> truthy (VNum NaN) \<and>
   addPocket no_Number (VNum (Fin 0)) example_entry = Throw MissingArgument example_entry \<and>
   removePocket no_Number VUndef example_entry = Throw MissingArgument example_entry \<and>
   addBank no_Number (VStr []) VUndef example_entry = Throw MissingArgument example_entry \<and>
   removeBank no_Number (VNum NaN) VUndef example_entry = Throw MissingArgument example_entry \<and>
   truthy (VObj [(''valueOf'', VNum (Fin 1)), (''toString'', VNum (Fin 1))]) \<and>
   addPocket no_Number (VObj [(''valueOf'', VNum (Fin 1)), (''toString'', VNum (Fin 1))]) example_entry
     \<noteq> Throw MissingArgument example_entry"
  using currency_methods_missing_argument
      [of no_Number "VNum (Fin 0)" example_entry example_entry]
    currency_methods_missing_argument
      [of no_Number VUndef example_entry example_entry]
    currency_methods_missing_argument
      [of no_Number "VStr []" example_entry example_entry VUndef]
    currency_methods_missing_argument
      [of no_Number "VNum NaN" example_entry example_entry VUndef]
    currency_methods_missing_argument
      [of no_Number "VObj [(''valueOf'', VNum (Fin 1)), (''toString'', VNum (Fin 1))]"
          example_entry example_entry]
  by simp

text \<open>
  \<^bold>\<open>C10\<close>, amended. For every entry whose \<^verbatim>\<open>bank\<close> and \<^verbatim>\<open>pocket\<close> are safe integers and every
  non-zero safe integer \<open>a\<close> above the bank such that \<open>bank - a\<close>, \<open>pocket + a\<close> and
  \<open>pocket + bank\<close> are safe integers too, \<^verbatim>\<open>removeBank(a)\<close> with \<^verbatim>\<open>transfer\<close> omitted or truthy
  sets \<^verbatim>\<open>bank\<close> to 0 and still adds the whole of \<open>a\<close> to \<^verbatim>\<open>pocket\<close>: the sum of pocket and bank
  grows by \<open>a - bank\<close>, which is positive.
\<close>

theorem removeBank_transfer_not_conserving:
  "a \<noteq> 0 \<and> bank this = Fin b \<and> pocket this = Fin p \<and> b < a \<and>
   isSafeInteger b \<and> isSafeInteger p \<and> isSafeInteger a \<and>
   isSafeInteger (b - a) \<and> isSafeInteger (p + a) \<and> isSafeInteger (p + b) \<and>
   (transfer = VUndef \<or> truthy transfer) \<longrightarrow>
     (\<exists>r. removeBank N (VNum (Fin a)) transfer this = Return r \<and>
        bank r = Fin 0 \<and> pocket r = Fin (p + a) \<and>
        js_plus (pocket r) (bank r) = Fin ((p + b) + (a - b)) \<and>
        js_plus (pocket this) (bank this) = Fin (p + b) \<and> p + b < (p + b) + (a - b))"
proof
  assume h: "a \<noteq> 0 \<and> bank this = Fin b \<and> pocket this = Fin p \<and> b < a \<and>
    isSafeInteger b \<and> isSafeInteger p \<and> isSafeInteger a \<and>
    isSafeInteger (b - a) \<and> isSafeInteger (p + a) \<and> isSafeInteger (p + b) \<and>
    (transfer = VUndef \<or> truthy transfer)"
  then have t: "truthy (VNum (Fin a))" and n: "toNumber N (VNum (Fin a)) = Some (Fin a)"
    and tr: "transfer = VUndef \<or> truthy transfer" by simp_all
  from h have "max (b - a) 0 = 0" by simp
  moreover from h have "js_minus (Fin b) (Fin a) = Fin (b - a)"
    and "js_plus (Fin p) (Fin a) = Fin (p + a)" and "js_plus (Fin p) (Fin b) = Fin (p + b)"
    by (simp_all add: to_double_safe)
  moreover from h have "js_plus (Fin (p + a)) (Fin 0) = Fin (p + a)"
    by (simp add: to_double_safe)
  ultimately show "\<exists>r. removeBank N (VNum (Fin a)) transfer this = Return r \<and>
        bank r = Fin 0 \<and> pocket r = Fin (p + a) \<and>
        js_plus (pocket r) (bank r) = Fin ((p + b) + (a - b)) \<and>
        js_plus (pocket this) (bank this) = Fin (p + b) \<and> p + b < (p + b) + (a - b)"
    using removeBank_transfer_effect [where this = this, OF t n tr] h by force
qed

theorem removeBank_transfer_not_conserving_witness:
  "(30::int) \<noteq> 0 \<and> bank example_entry = Fin 0 \<and> pocket example_entry = Fin 50 \<and> (0::int) < 30 \<and>
   isSafeInteger 0 \<and> isSafeInteger 50 \<and> isSafeInteger 30 \<and>
   isSafeInteger (0 - 30) \<and> isSafeInteger (50 + 30) \<and> isSafeInteger (50 + 0) \<and>
   (\<exists>r. removeBank no_Number (VNum (Fin 30)) VUndef example_entry = Return r \<and>
      bank r = Fin 0 \<and> pocket r = Fin 80 \<and> js_plus (pocket r) (bank r) = Fin 80) \<and>
   js_plus (pocket example_entry) (bank example_entry) = Fin 50"
  using removeBank_transfer_not_conserving [of 30 example_entry 0 50 VUndef no_Number]
  by (simp add: example_entry_def new_UserEntry_def UserData.extend_def UserEntry.fields_def
      isSafeInteger_def to_double_safe)

text \<open>
  C10 as stated fails beyond the safe integers: with \<open>2 ^ 53\<close> in the pocket and an empty
  bank, \<^verbatim>\<open>removeBank(1)\<close> leaves the bank at 0 and the pocket at \<open>2 ^ 53\<close>, so the sum of
  pocket and bank is what it was and has not increased.
\<close>

theorem removeBank_rounding_counterexample:
  "js_plus (pocket (example_entry\<lparr>pocket := Fin 9007199254740992\<rparr>))
     (bank (example_entry\<lparr>pocket := Fin 9007199254740992\<rparr>)) = Fin 9007199254740992 \<and>
   removeBank no_Number (VNum (Fin 1)) VUndef (example_entry\<lparr>pocket := Fin 9007199254740992\<rparr>) =
     Return (example_entry\<lparr>bank := Fin 0, pocket := Fin 9007199254740992,
       changes := [(''bank'', row_sub_max0 ''bank'' (Fin 1)),
                   (''pocket'', row_add ''pocket'' (Fin 1))]\<rparr>) \<and>
   js_plus (Fin 9007199254740992) (Fin 0) = Fin 9007199254740992"
  by (simp add: removeBank_def update_def example_entry_def new_UserEntry_def
      UserData.extend_def UserEntry.fields_def row_add_def row_sub_max0_def Let_def
      to_double_safe isSafeInteger_def to_double_rounds to_double_two53)

section \<open>Properties of \<^verbatim>\<open>save\<close> and of the two views\<close>

text \<open>
  \<^bold>\<open>C1.\<close> \<^verbatim>\<open>save\<close> leaves the entry as it was. When the run of the query gives a document,
  the promise resolves with a new entry built from that document and the client alone:
  its user data is the document, its changes are empty. When the run fails, the promise
  is rejected with that error, and saving the entry again is saving the entry as it was
  before.
\<close>

theorem save_result:
  "fst (save run this) = this \<and>
   (run (user_id this) (changes this) = Inr new_val \<longrightarrow>
      snd (save run this) = Inr (new_UserEntry new_val (client this)) \<and>
      UserData.truncate (new_UserEntry new_val (client this)) = new_val \<and>
      changes (new_UserEntry new_val (client this)) = [] \<and>
      client (new_UserEntry new_val (client this)) = client this) \<and>
   (run (user_id this) (changes this) = Inl e \<longrightarrow>
      snd (save run this) = Inl e \<and> save run' (fst (save run this)) = save run' this)"
  by (simp add: save_def new_UserEntry_def UserData.truncate_def UserData.extend_def
      UserEntry.fields_def)

theorem save_result_witness:
  "snd (save (\<lambda>uid pending. Inr (UserData.truncate (example_entry\<lparr>pocket := Fin 60\<rparr>))) example_entry)
     = Inr (new_UserEntry (UserData.truncate (example_entry\<lparr>pocket := Fin 60\<rparr>)) (VObj [])) \<and>
   changes (new_UserEntry (UserData.truncate (example_entry\<lparr>pocket := Fin 60\<rparr>)) (VObj [])) = [] \<and>
   pocket (new_UserEntry (UserData.truncate (example_entry\<lparr>pocket := Fin 60\<rparr>)) (VObj [])) = Fin 60 \<and>
   snd (save (\<lambda>uid pending. Inl (PersistenceError ''down'')) example_entry)
     = Inl (PersistenceError ''down'') \<and>
   fst (save (\<lambda>uid pending. Inl (PersistenceError ''down'')) example_entry) = example_entry"
  using save_result [of "\<lambda>uid pending. Inr (UserData.truncate (example_entry\<lparr>pocket := Fin 60\<rparr>))"
      example_entry "UserData.truncate (example_entry\<lparr>pocket := Fin 60\<rparr>)"]
    save_result [of "\<lambda>uid pending. Inl (PersistenceError ''down'')" example_entry _ "PersistenceError ''down''"]
  by (simp add: example_entry_def new_UserEntry_def UserData.truncate_def UserData.extend_def
      UserEntry.fields_def)

text \<open>
  \<^bold>\<open>C8.\<close> The claim: \<^verbatim>\<open>toJSON\<close> returns a text of the data fields. On the code
  \<^verbatim>\<open>toJSON\<close> returns nothing: \<^verbatim>\<open>JSON.stringify(this)\<close> calls the method \<^verbatim>\<open>toJSON\<close> of \<^verbatim>\<open>this\<close>,
  which calls \<^verbatim>\<open>JSON.stringify(this)\<close> again, and so on until the engine ends the recursion
  with a \<^verbatim>\<open>RangeError\<close>.
\<close>

theorem toJSON_never_returns: "toJSON QuoteJSONString this = None"
proof (cases "toJSON QuoteJSONString this")
  case None
  then show ?thesis .
next
  case (Some s)
  have False
    by (rule toJSON.raw_induct [where P = "\<lambda>_ _ _. False", OF _ Some])
      (auto simp: bind_eq_Some_conv)
  then show ?thesis ..
qed

text \<open>
  The other half of C8 holds: \<^verbatim>\<open>toPlainObject\<close> returns the thirteen properties of the
  user data, without \<^verbatim>\<open>_client\<close>, without \<^verbatim>\<open>_changes\<close> and without a function.
\<close>

theorem toPlainObject_data_only:
  "toPlainObject this = take 13 (ownProperties this) \<and>
   ''_client'' \<notin> fst ` set (toPlainObject this) \<and>
   ''_changes'' \<notin> fst ` set (toPlainObject this) \<and>
   list_all (\<lambda>p. typeof (snd p) \<noteq> ''function'') (toPlainObject this)"
  by (simp add: toPlainObject_def ownProperties_def)

end
